theory Spec2Isabelle
  imports Main "HOL-Library.AList"
begin

section \<open>Values, connections and the three indexes of channelManager.js\<close>

text \<open>
  Messages are JSON data. A JavaScript number is modelled as an integer; a string is the
  list of its code units, each below 256. On this data model \<^verbatim>\<open>JSON.stringify\<close> does
  not throw.
\<close>

datatype jsval =
    JUndefined
  | JNull
  | JBool bool
  | JNum int
  | JStr string
  | JArr "jsval list"
  | JObj "(string \<times> jsval) list"

text \<open>
  A response object \<^verbatim>\<open>res\<close> is owned by the transport; the module only compares
  it by identity, reads \<^verbatim>\<open>res.destroyed\<close> and calls \<^verbatim>\<open>write\<close>, \<^verbatim>\<open>destroy\<close> and
  \<^verbatim>\<open>on\<close>. It is a reference here. A message object is a reference into a store of
  values, so that a write into the caller's object would be visible.
\<close>

type_synonym conn = nat
type_synonym addr = nat

datatype jserror = TypeError | RangeError | Error string

fun error_message :: "jserror \<Rightarrow> string" where
  "error_message (Error m) = m"
| "error_message TypeError = ''TypeError''"
| "error_message RangeError = ''Invalid time value''"

text \<open>The texts passed to \<^verbatim>\<open>logChannel\<close>, in the order they appear in the module.\<close>

datatype logtext =
    Error_sending_to_client_removing
  | Closing_existing_connections nat
  | Client_subscribed
  | Client_unsubscribed
  | Publishing_message_to_channel

datatype event =
    Write conn string
  | Destroy conn
  | OnClose conn string
  | Log logtext string jsval
  | ConsoleError string jserror
  | Rewrite jsval

text \<open>\<^verbatim>\<open>clientMap\<close> values \<^verbatim>\<open>{ clientId, channel, ip }\<close> and \<^verbatim>\<open>ipConnections\<close>
  set elements \<^verbatim>\<open>{ res, channel }\<close>.\<close>

record client_info =
  clientId :: string
  channel :: string
  ip :: string

record conn_info =
  res :: conn
  conn_channel :: string

text \<open>
  A JavaScript \<^verbatim>\<open>Map\<close> is an association list in insertion order: \<^verbatim>\<open>get\<close> is
  \<^const>\<open>map_of\<close>, \<^verbatim>\<open>set\<close> is \<^const>\<open>AList.update\<close> (an existing key keeps its place, a new
  key goes to the end), \<^verbatim>\<open>delete\<close> is \<^const>\<open>AList.delete\<close>. A \<^verbatim>\<open>Set\<close> of
  connections is a list in insertion order. The elements of an \<^verbatim>\<open>ipConnections\<close>
  set are object literals, each a new object, so \<^verbatim>\<open>add\<close> always appends.
\<close>

record world =
  channels :: "(string \<times> conn list) list"
  clientMap :: "(conn \<times> client_info) list"
  ipConnections :: "(string \<times> conn_info list) list"
  heap :: "jsval list"
  destroyed :: "conn list"
  trace :: "event list"

definition empty_world :: world where
  "empty_world = \<lparr>channels = [], clientMap = [], ipConnections = [],
                   heap = [], destroyed = [], trace = []\<rparr>"

text \<open>
  Modelled from the spec: the collaborators that are imported but not part of the module
  (\<^verbatim>\<open>rewriteImageUrls\<close> of imageProxy.js, a pure and total function of the payload) and
  the behaviour of the transport (which \<^verbatim>\<open>write\<close> and \<^verbatim>\<open>destroy\<close> calls throw), together
  with \<^verbatim>\<open>JSON.stringify\<close>.
\<close>

record env =
  rewriteImageUrls :: "jsval \<Rightarrow> jsval"
  stringify :: "jsval \<Rightarrow> string"
  write_throws :: "conn \<Rightarrow> string option"
  destroy_throws :: "conn \<Rightarrow> bool"

definition Set_add :: "'a list \<Rightarrow> 'a \<Rightarrow> 'a list" where
  "Set_add xs x = (if x \<in> set xs then xs else xs @ [x])"

definition heap_get :: "jsval list \<Rightarrow> addr \<Rightarrow> jsval" where
  "heap_get h a = (if a < length h then h ! a else JUndefined)"

definition heap_alloc :: "jsval \<Rightarrow> world \<Rightarrow> addr \<times> world" where
  "heap_alloc v w = (length (heap w), w\<lparr>heap := heap w @ [v]\<rparr>)"

text \<open>Reading a property: a TypeError on \<^verbatim>\<open>null\<close> and \<^verbatim>\<open>undefined\<close>, the field of an
  object, \<^verbatim>\<open>undefined\<close> when the field is missing. Only \<^verbatim>\<open>type\<close> and \<^verbatim>\<open>view\<close>
  are read, which no primitive or array has.\<close>

fun get_prop :: "jsval \<Rightarrow> string \<Rightarrow> jserror + jsval" where
  "get_prop JUndefined k = Inl TypeError"
| "get_prop JNull k = Inl TypeError"
| "get_prop (JObj fs) k = Inr (case map_of fs k of None \<Rightarrow> JUndefined | Some v \<Rightarrow> v)"
| "get_prop v k = Inr JUndefined"

fun truthy :: "jsval \<Rightarrow> bool" where
  "truthy JUndefined = False"
| "truthy JNull = False"
| "truthy (JBool b) = b"
| "truthy (JNum n) = (n \<noteq> 0)"
| "truthy (JStr s) = (s \<noteq> [])"
| "truthy (JArr xs) = True"
| "truthy (JObj fs) = True"

text \<open>The own properties copied by \<^verbatim>\<open>{...message}\<close>. The spread is only reached for a
  message whose \<^verbatim>\<open>type\<close> is a string, that is for an object.\<close>

fun own_props :: "jsval \<Rightarrow> (string \<times> jsval) list" where
  "own_props (JObj fs) = fs"
| "own_props v = []"

section \<open>Collaborators\<close>

text \<open>Modelled from the spec: logger.js is not part of the module; \<^verbatim>\<open>logChannel\<close> is a
  fire-and-forget sink of \<^verbatim>\<open>(message, channel, context)\<close> that never fails.\<close>

definition logChannel :: "logtext \<Rightarrow> string \<Rightarrow> jsval \<Rightarrow> world \<Rightarrow> world" where
  "logChannel text ch ctx w = w\<lparr>trace := trace w @ [Log text ch ctx]\<rparr>"

definition console_error :: "string \<Rightarrow> jserror \<Rightarrow> world \<Rightarrow> world" where
  "console_error text err w = w\<lparr>trace := trace w @ [ConsoleError text err]\<rparr>"

text \<open>\<^verbatim>\<open>res.write(data)\<close>: the call is recorded, then it returns or throws.\<close>

definition res_write :: "env \<Rightarrow> conn \<Rightarrow> string \<Rightarrow> world \<Rightarrow> (jserror + unit) \<times> world" where
  "res_write e r d w =
     (let w1 = w\<lparr>trace := trace w @ [Write r d]\<rparr>
      in case write_throws e r of
           Some m \<Rightarrow> (Inl (Error m), w1)
         | None \<Rightarrow> (Inr (), w1))"

text \<open>\<^verbatim>\<open>res.destroy()\<close>: the call is recorded; it throws, or marks the connection
  destroyed.\<close>

definition res_destroy :: "env \<Rightarrow> conn \<Rightarrow> world \<Rightarrow> (jserror + unit) \<times> world" where
  "res_destroy e r w =
     (let w1 = w\<lparr>trace := trace w @ [Destroy r]\<rparr>
      in if destroy_throws e r then (Inl (Error ''destroy failed''), w1)
         else (Inr (), w1\<lparr>destroyed := Set_add (destroyed w1) r\<rparr>))"

definition sse_frame :: "env \<Rightarrow> jsval \<Rightarrow> string" where
  "sse_frame e m = ''data: '' @ stringify e m @ [CHR 0x0A, CHR 0x0A]"

section \<open>broadcastToChannel\<close>

text \<open>Lines 12 to 20: \<^verbatim>\<open>processedMessage\<close> is the caller's object, or a new object
  built by the spread when the message is a view message with a truthy \<^verbatim>\<open>view\<close>.\<close>

definition processMessage :: "env \<Rightarrow> addr \<Rightarrow> world \<Rightarrow> jserror + (addr \<times> world)" where
  "processMessage e a w =
     (let message = heap_get (heap w) a in
      case get_prop message ''type'' of
        Inl err \<Rightarrow> Inl err
      | Inr t \<Rightarrow>
          if t = JStr ''initial_view'' \<or> t = JStr ''view_change'' then
            (case get_prop message ''view'' of
               Inl err \<Rightarrow> Inl err
             | Inr v \<Rightarrow>
                 if truthy v then
                   (let w1 = w\<lparr>trace := trace w @ [Rewrite v]\<rparr>;
                        v' = rewriteImageUrls e v
                    in Inr (heap_alloc (JObj (AList.update ''view'' v' (own_props message))) w1))
                 else Inr (a, w))
          else Inr (a, w))"

text \<open>Lines 22 to 44, the callback of \<^verbatim>\<open>clients.forEach\<close>: the \<^verbatim>\<open>try\<close> block
  and its \<^verbatim>\<open>catch\<close>.\<close>

definition deliver :: "env \<Rightarrow> string \<Rightarrow> addr \<Rightarrow> conn \<Rightarrow> world \<Rightarrow> world" where
  "deliver e ch p r w =
     (case res_write e r (sse_frame e (heap_get (heap w) p)) w of
        (Inr u, w1) \<Rightarrow> w1
      | (Inl err, w1) \<Rightarrow>
          (let w2 = console_error ''Error sending to client:'' err w1;
               w3 = (case map_of (clientMap w2) r of
                       None \<Rightarrow> w2
                     | Some info \<Rightarrow>
                         logChannel Error_sending_to_client_removing ch
                           (JObj [(''clientId'', JStr (clientId info)),
                                  (''error'', JStr (error_message err))]) w2);
               w4 = (case map_of (channels w3) ch of
                       None \<Rightarrow> w3
                     | Some rs \<Rightarrow> w3\<lparr>channels := AList.update ch (removeAll r rs) (channels w3)\<rparr>)
           in w4\<lparr>clientMap := AList.delete r (clientMap w4)\<rparr>))"

text \<open>\<^verbatim>\<open>Set.prototype.forEach\<close> visits the elements in insertion order and skips the
  ones deleted before their turn. The callback deletes only the element it is visiting, so
  the loop is a fold over the set as it was at the start of the call.\<close>

definition broadcastToChannel :: "env \<Rightarrow> string \<Rightarrow> addr \<Rightarrow> world \<Rightarrow> jserror + world" where
  "broadcastToChannel e ch a w =
     (case map_of (channels w) ch of
        None \<Rightarrow> Inr w
      | Some clients \<Rightarrow>
          (case processMessage e a w of
             Inl err \<Rightarrow> Inl err
           | Inr (p, w1) \<Rightarrow> Inr (fold (deliver e ch p) clients w1)))"

section \<open>ChannelManager\<close>

text \<open>Lines 59 to 73, the body of the eviction loop for one \<^verbatim>\<open>connInfo\<close>.\<close>

definition evict :: "env \<Rightarrow> conn_info \<Rightarrow> world \<Rightarrow> world" where
  "evict e ci w =
     (let w1 = (if res ci \<notin> set (destroyed w)
                then (case res_destroy e (res ci) w of (Inr u, w') \<Rightarrow> w' | (Inl err, w') \<Rightarrow> w')
                else w);
          w2 = (case map_of (channels w1) (conn_channel ci) of
                  None \<Rightarrow> w1
                | Some channelClients \<Rightarrow>
                    w1\<lparr>channels := AList.update (conn_channel ci)
                                     (removeAll (res ci) channelClients) (channels w1)\<rparr>)
      in w2\<lparr>clientMap := AList.delete (res ci) (clientMap w2)\<rparr>)"

text \<open>Lines 51 to 75: close the existing connections from the same IP.\<close>

definition closeExisting :: "env \<Rightarrow> string \<Rightarrow> string \<Rightarrow> string \<Rightarrow> world \<Rightarrow> world" where
  "closeExisting e ch cid ipa w =
     (case map_of (ipConnections w) ipa of
        None \<Rightarrow> w
      | Some existingConnections \<Rightarrow>
          (let wa = logChannel (Closing_existing_connections (length existingConnections)) ch
                      (JObj [(''ip'', JStr ipa), (''clientId'', JStr cid)]) w;
               wb = fold (evict e) existingConnections wa
           in wb\<lparr>ipConnections := AList.delete ipa (ipConnections wb)\<rparr>))"

text \<open>\<^verbatim>\<open>channels.get(channel)\<close> and \<^verbatim>\<open>ipConnections.get(ip)\<close> are dereferenced
  without a test: on \<^verbatim>\<open>undefined\<close> that is a TypeError.\<close>

definition subscribeClient ::
    "env \<Rightarrow> string \<Rightarrow> conn \<Rightarrow> string \<Rightarrow> string \<Rightarrow> world \<Rightarrow> jserror + world" where
  "subscribeClient e ch r cid ipa w =
     (let w1 = closeExisting e ch cid ipa w;
          w2 = (if map_of (channels w1) ch = None
                then w1\<lparr>channels := AList.update ch [] (channels w1)\<rparr> else w1)
      in case map_of (channels w2) ch of
           None \<Rightarrow> Inl TypeError
         | Some cs \<Rightarrow>
             (let w3 = w2\<lparr>channels := AList.update ch (Set_add cs r) (channels w2)\<rparr>;
                  w4 = w3\<lparr>clientMap :=
                          AList.update r \<lparr>clientId = cid, channel = ch, ip = ipa\<rparr> (clientMap w3)\<rparr>;
                  w5 = (if map_of (ipConnections w4) ipa = None
                        then w4\<lparr>ipConnections := AList.update ipa [] (ipConnections w4)\<rparr> else w4)
              in case map_of (ipConnections w5) ipa of
                   None \<Rightarrow> Inl TypeError
                 | Some conns \<Rightarrow>
                     (let w6 = w5\<lparr>ipConnections :=
                                   AList.update ipa (conns @ [\<lparr>res = r, conn_channel = ch\<rparr>])
                                     (ipConnections w5)\<rparr>
                      in case map_of (channels w6) ch of
                           None \<Rightarrow> Inl TypeError
                         | Some cs' \<Rightarrow>
                             (let w7 = logChannel Client_subscribed ch
                                         (JObj [(''clientId'', JStr cid), (''ip'', JStr ipa),
                                                (''totalClients'', JNum (int (length cs')))]) w6
                              in Inr (w7\<lparr>trace := trace w7 @ [OnClose r ch]\<rparr>)))))"

text \<open>Lines 112 to 117: delete the first element whose \<^verbatim>\<open>res\<close> is the connection.\<close>

fun delete_first_res :: "conn \<Rightarrow> conn_info list \<Rightarrow> conn_info list" where
  "delete_first_res r [] = []"
| "delete_first_res r (ci # cis) = (if res ci = r then cis else ci # delete_first_res r cis)"

definition unsubscribeClient :: "string \<Rightarrow> conn \<Rightarrow> world \<Rightarrow> jserror + world" where
  "unsubscribeClient ch r w =
     (let clientInfo = map_of (clientMap w) r in
      case map_of (channels w) ch of
        None \<Rightarrow> Inr w
      | Some clients \<Rightarrow>
          (let clients' = removeAll r clients;
               w1 = w\<lparr>channels := AList.update ch clients' (channels w)\<rparr>;
               w2 = (case clientInfo of
                       None \<Rightarrow> w1
                     | Some info \<Rightarrow>
                         if ip info = [] then w1
                         else (case map_of (ipConnections w1) (ip info) of
                                 None \<Rightarrow> w1
                               | Some ipConns \<Rightarrow>
                                   (let ipConns' = delete_first_res r ipConns;
                                        wa = w1\<lparr>ipConnections :=
                                                 AList.update (ip info) ipConns' (ipConnections w1)\<rparr>
                                    in if ipConns' = []
                                       then wa\<lparr>ipConnections :=
                                                 AList.delete (ip info) (ipConnections wa)\<rparr>
                                       else wa)));
               w3 = w2\<lparr>clientMap := AList.delete r (clientMap w2)\<rparr>;
               w4 = (case clientInfo of
                       None \<Rightarrow> w3
                     | Some info \<Rightarrow>
                         logChannel Client_unsubscribed ch
                           (JObj [(''clientId'', JStr (clientId info)), (''ip'', JStr (ip info)),
                                  (''remainingClients'', JNum (int (length clients')))]) w3)
           in Inr (if clients' = [] then w4\<lparr>channels := AList.delete ch (channels w4)\<rparr> else w4)))"

definition sendToChannel :: "env \<Rightarrow> string \<Rightarrow> addr \<Rightarrow> world \<Rightarrow> jserror + world" where
  "sendToChannel e ch a w =
     broadcastToChannel e ch a (logChannel Publishing_message_to_channel ch (heap_get (heap w) a) w)"

section \<open>Read-only projections\<close>

text \<open>\<^verbatim>\<open>String.prototype.split('-')\<close>: the segments between the separators, never an
  empty array.\<close>

fun split_on :: "char \<Rightarrow> string \<Rightarrow> string list" where
  "split_on c [] = [] # []"
| "split_on c (x # xs) =
     (case split_on c xs of
        [] \<Rightarrow> (if x = c then [] # [] # [] else [x] # [])
      | p # ps \<Rightarrow> (if x = c then [] # p # ps else (x # p) # ps))"

text \<open>
  \<^verbatim>\<open>parseInt(string)\<close> with no radix: leading white space is skipped (of the code
  units below 256 these are the tab, the line terminators LF and CR, VT, FF, the space and
  the no-break space), then an optional
  sign, then an optional \<^verbatim>\<open>0x\<close> prefix that selects radix 16; the longest prefix of
  digits of the radix is read, and there being none gives \<^verbatim>\<open>NaN\<close>, here \<^const>\<open>None\<close>. The
  result is the integer itself: a double holds every integer up to \<open>2^53\<close> exactly, and
  above the largest time value of a \<^verbatim>\<open>Date\<close>, which is smaller, only the sign of the
  result matters to the callers.
\<close>

definition is_white_space :: "char \<Rightarrow> bool" where
  "is_white_space c = ((of_char c :: nat) \<in> {9, 10, 11, 12, 13, 32, 160})"

definition digit_value :: "char \<Rightarrow> nat option" where
  "digit_value c =
     (let n = (of_char c :: nat) in
      if 48 \<le> n \<and> n \<le> 57 then Some (n - 48)
      else if 97 \<le> n \<and> n \<le> 122 then Some (n - 87)
      else if 65 \<le> n \<and> n \<le> 90 then Some (n - 55)
      else None)"

definition is_digit_of :: "nat \<Rightarrow> char \<Rightarrow> bool" where
  "is_digit_of radix c = (case digit_value c of None \<Rightarrow> False | Some d \<Rightarrow> d < radix)"

definition digits_value :: "nat \<Rightarrow> string \<Rightarrow> nat" where
  "digits_value radix z = fold (\<lambda>c n. n * radix + (case digit_value c of None \<Rightarrow> 0 | Some d \<Rightarrow> d)) z 0"

definition parseInt :: "string \<Rightarrow> int option" where
  "parseInt s =
     (let s1 = dropWhile is_white_space s;
          sign = (case s1 of [] \<Rightarrow> (1::int) | c # cs \<Rightarrow> if c = CHR ''-'' then - 1 else 1);
          s2 = (case s1 of [] \<Rightarrow> [] | c # cs \<Rightarrow> if c = CHR ''+'' \<or> c = CHR ''-'' then cs else s1);
          hex = (case s2 of
                   a # b # cs \<Rightarrow> a = CHR ''0'' \<and> (b = CHR ''x'' \<or> b = CHR ''X'')
                 | _ \<Rightarrow> False);
          radix = (if hex then 16 else 10);
          s3 = (if hex then drop 2 s2 else s2);
          z = takeWhile (is_digit_of radix) s3
      in if z = [] then None else Some (sign * int (digits_value radix z)))"

text \<open>Lines 151 to 161 and, again, 204 to 213: the timestamp read from the last
  \<^verbatim>\<open>-\<close> segment of \<^verbatim>\<open>clientId\<close>.\<close>

definition parse_timestamp :: "string \<Rightarrow> int option" where
  "parse_timestamp cid =
     (let parts = split_on (CHR ''-'') cid in
      if length parts > 0 then
        (case parseInt (last parts) of
           None \<Rightarrow> None
         | Some parsed \<Rightarrow> if parsed > 0 then Some parsed else None)
      else None)"

text \<open>
  \<^verbatim>\<open>new Date(timestamp)\<close> is an invalid date when the time value is beyond
  8.64e15 milliseconds, and \<^verbatim>\<open>toISOString\<close> throws a RangeError on an invalid date.
  \<open>ISO t\<close> stands for the ISO 8601 text of the date with time value \<open>t\<close>.
\<close>

datatype isodate = ISO int

definition max_time_value :: int where
  "max_time_value = 8640000000000000"

definition toISOString :: "int \<Rightarrow> jserror + isodate" where
  "toISOString t = (if \<bar>t\<bar> \<le> max_time_value then Inr (ISO t) else Inl RangeError)"

text \<open>Lines 163 and 169 (215 and 220): \<^verbatim>\<open>timestamp ? new Date(timestamp) : null\<close>, then
  \<^verbatim>\<open>connectedAt ? connectedAt.toISOString() : null\<close>.\<close>

definition connectedAt_of :: "int option \<Rightarrow> jserror + isodate option" where
  "connectedAt_of timestamp =
     (case timestamp of
        None \<Rightarrow> Inr None
      | Some t \<Rightarrow>
          if t \<noteq> 0 then (case toISOString t of Inl err \<Rightarrow> Inl err | Inr d \<Rightarrow> Inr (Some d))
          else Inr None)"

record client_view =
  view_clientId :: string
  view_channel :: string
  view_ip :: string
  connectedAt :: "isodate option"
  connectedAtTimestamp :: "int option"

definition extractClientInfo :: "client_info \<Rightarrow> jserror + client_view" where
  "extractClientInfo info =
     (let timestamp = parse_timestamp (clientId info) in
      case connectedAt_of timestamp of
        Inl err \<Rightarrow> Inl err
      | Inr d \<Rightarrow> Inr \<lparr>view_clientId = clientId info, view_channel = channel info,
                      view_ip = ip info, connectedAt = d, connectedAtTimestamp = timestamp\<rparr>)"

text \<open>A \<^verbatim>\<open>forEach\<close> whose callback may throw and pushes at most one element.\<close>

fun collect :: "('a \<Rightarrow> jserror + 'b option) \<Rightarrow> 'a list \<Rightarrow> jserror + 'b list" where
  "collect f [] = Inr []"
| "collect f (x # xs) =
     (case f x of
        Inl err \<Rightarrow> Inl err
      | Inr y \<Rightarrow>
          (case collect f xs of
             Inl err \<Rightarrow> Inl err
           | Inr ys \<Rightarrow> Inr (case y of None \<Rightarrow> ys | Some v \<Rightarrow> v # ys)))"

text \<open>The argument is \<^const>\<open>None\<close> for the default \<^verbatim>\<open>null\<close>; the test \<^verbatim>\<open>if (channel)\<close>
  also sends the empty string to the branch of all clients.\<close>

definition getConnectedClients :: "string option \<Rightarrow> world \<Rightarrow> jserror + client_view list" where
  "getConnectedClients arg w =
     (case arg of
        Some (c # cs) \<Rightarrow>
          (case map_of (channels w) (c # cs) of
             None \<Rightarrow> Inr []
           | Some channelClients \<Rightarrow>
               collect (\<lambda>r. case map_of (clientMap w) r of
                              None \<Rightarrow> Inr None
                            | Some info \<Rightarrow> map_sum id Some (extractClientInfo info))
                       channelClients)
      | _ \<Rightarrow> collect (\<lambda>(r, info). map_sum id Some (extractClientInfo info)) (clientMap w))"

record stats_client =
  stats_clientId :: string
  stats_ip :: string
  stats_connectedAt :: "isodate option"
  stats_connectedAtTimestamp :: "int option"

record channel_stats =
  clientCount :: nat
  clients :: "stats_client list"

definition stats_client_of :: "(conn \<times> client_info) list \<Rightarrow> conn \<Rightarrow> jserror + stats_client option" where
  "stats_client_of cm r =
     (case map_of cm r of
        None \<Rightarrow> Inr None
      | Some info \<Rightarrow>
          (let timestamp = parse_timestamp (clientId info) in
           case connectedAt_of timestamp of
             Inl err \<Rightarrow> Inl err
           | Inr d \<Rightarrow> Inr (Some \<lparr>stats_clientId = clientId info, stats_ip = ip info,
                                 stats_connectedAt = d, stats_connectedAtTimestamp = timestamp\<rparr>)))"

text \<open>
  The result of \<^verbatim>\<open>getChannelStats\<close> is a plain object, \<^verbatim>\<open>const stats = {}\<close>. It is
  the list of its own properties in the order in which they are enumerated: the names that
  are array indices first, in ascending order, then the other names in the order of their
  creation. An array index is the decimal text, without a leading zero, of an integer below
  \<open>2^32 - 1\<close>.
\<close>

definition is_decimal_digit :: "char \<Rightarrow> bool" where
  "is_decimal_digit c = (48 \<le> (of_char c :: nat) \<and> (of_char c :: nat) \<le> 57)"

definition array_index :: "string \<Rightarrow> nat option" where
  "array_index k =
     (case k of
        [] \<Rightarrow> None
      | c # cs \<Rightarrow>
          if list_all is_decimal_digit k \<and> (if c = CHR ''0'' then cs = [] else True) \<and>
             digits_value 10 k < 4294967295
          then Some (digits_value 10 k) else None)"

fun insert_index :: "nat \<Rightarrow> string \<Rightarrow> 'v \<Rightarrow> (string \<times> 'v) list \<Rightarrow> (string \<times> 'v) list" where
  "insert_index n k v [] = [(k, v)]"
| "insert_index n k v (p # ps) =
     (case array_index (fst p) of
        None \<Rightarrow> (k, v) # p # ps
      | Some m \<Rightarrow> if n < m then (k, v) # p # ps else p # insert_index n k v ps)"

text \<open>
  \<^verbatim>\<open>stats[channel] = ...\<close> on that object. The name \<^verbatim>\<open>__proto__\<close> is an accessor
  inherited from \<^verbatim>\<open>Object.prototype\<close>: the assignment of an object to it replaces the
  prototype of \<^verbatim>\<open>stats\<close> and creates no own property. Every other name becomes an own
  property, or has its value replaced when it is one already.
\<close>

definition object_set :: "string \<Rightarrow> 'v \<Rightarrow> (string \<times> 'v) list \<Rightarrow> (string \<times> 'v) list" where
  "object_set k v ps =
     (if k = ''__proto__'' then ps
      else if map_of ps k \<noteq> None then AList.update k v ps
      else (case array_index k of
              None \<Rightarrow> ps @ [(k, v)]
            | Some n \<Rightarrow> insert_index n k v ps))"

text \<open>\<^verbatim>\<open>channels.forEach\<close> of \<^verbatim>\<open>getChannelStats\<close>.\<close>

fun stats_forEach ::
    "(conn \<times> client_info) list \<Rightarrow> (string \<times> conn list) list \<Rightarrow>
     (string \<times> channel_stats) list \<Rightarrow> jserror + (string \<times> channel_stats) list" where
  "stats_forEach cm [] stats = Inr stats"
| "stats_forEach cm ((ch, channelClients) # rest) stats =
     (case collect (stats_client_of cm) channelClients of
        Inl err \<Rightarrow> Inl err
      | Inr clientList \<Rightarrow>
          stats_forEach cm rest
            (object_set ch \<lparr>clientCount = length channelClients, clients = clientList\<rparr> stats))"

definition getChannelStats :: "world \<Rightarrow> jserror + (string \<times> channel_stats) list" where
  "getChannelStats w = stats_forEach (clientMap w) (channels w) []"

section \<open>Observations on a trace and on client ids\<close>

text \<open>The \<^verbatim>\<open>write\<close> calls and the \<^verbatim>\<open>rewriteImageUrls\<close> calls of a trace, in order.\<close>

definition writes_of :: "event list \<Rightarrow> (conn \<times> string) list" where
  "writes_of tr = concat (map (\<lambda>ev. case ev of Write r d \<Rightarrow> [(r, d)] | _ \<Rightarrow> []) tr)"

definition rewrites_of :: "event list \<Rightarrow> jsval list" where
  "rewrites_of tr = concat (map (\<lambda>ev. case ev of Rewrite v \<Rightarrow> [v] | _ \<Rightarrow> []) tr)"

definition timestamp_in_range :: "string \<Rightarrow> bool" where
  "timestamp_in_range cid =
     (case parse_timestamp cid of None \<Rightarrow> True | Some t \<Rightarrow> t \<le> max_time_value)"

definition clientIds_in_range :: "world \<Rightarrow> bool" where
  "clientIds_in_range w = list_all (\<lambda>(r, info). timestamp_in_range (clientId info)) (clientMap w)"

text \<open>The world returned by an operation, for the examples below.\<close>

definition returned :: "jserror + world \<Rightarrow> world" where
  "returned x = (case x of Inl err \<Rightarrow> empty_world | Inr w \<Rightarrow> w)"

definition example_stringify :: "jsval \<Rightarrow> string" where
  "example_stringify m =
     (case get_prop m ''view'' of
        Inr (JStr s) \<Rightarrow> s
      | Inr (JArr xs) \<Rightarrow> ''rewritten''
      | _ \<Rightarrow> ''no view'')"

definition env_ok :: env where
  "env_ok = \<lparr>rewriteImageUrls = (\<lambda>v. JArr [JStr ''proxy'', v]), stringify = example_stringify,
             write_throws = (\<lambda>r. None), destroy_throws = (\<lambda>r. False)\<rparr>"

definition env_s1_fails :: env where
  "env_s1_fails = env_ok\<lparr>write_throws := (\<lambda>r. if r = 1 then Some ''EPIPE'' else None)\<rparr>"

definition msg_ping :: jsval where
  "msg_ping = JObj [(''type'', JStr ''ping'')]"

definition msg_view :: jsval where
  "msg_view = JObj [(''type'', JStr ''initial_view''), (''view'', JStr ''a.png'')]"

definition msg_view_no_payload :: jsval where
  "msg_view_no_payload = JObj [(''type'', JStr ''view_change'')]"

definition world0 :: world where
  "world0 = empty_world\<lparr>heap := [msg_ping, msg_view, JNull, msg_view_no_payload]\<rparr>"

definition world_s1 :: world where
  "world_s1 = returned (subscribeClient env_ok ''X'' 1 ''10.0.0.1-1700000000000'' ''10.0.0.1'' world0)"

definition world_s1_s2 :: world where
  "world_s1_s2 =
     returned (subscribeClient env_ok ''X'' 2 ''10.0.0.2-1700000000001'' ''10.0.0.2'' world_s1)"

definition world_evicted :: world where
  "world_evicted =
     returned (subscribeClient env_ok ''Y'' 2 ''10.0.0.1-1700000000002'' ''10.0.0.1'' world_s1)"

definition world_bad_id :: world where
  "world_bad_id =
     returned (subscribeClient env_ok ''X'' 1 ''10.0.0.1-8640000000000001'' ''10.0.0.1'' world0)"

definition world_s1_failed :: world where
  "world_s1_failed = returned (sendToChannel env_s1_fails ''X'' 0 world_s1)"

definition world_s2_left :: world where
  "world_s2_left = returned (sendToChannel env_s1_fails ''X'' 0 world_s1_s2)"

definition world_after_view :: world where
  "world_after_view = returned (sendToChannel env_ok ''X'' 1 world_s1)"

definition world_s1_gone :: world where
  "world_s1_gone = returned (unsubscribeClient ''X'' 1 world_s1)"

definition world_s3_bad_id :: world where
  "world_s3_bad_id =
     returned (subscribeClient env_ok ''X'' 3 ''10.0.0.3-8640000000000001'' ''10.0.0.3''
                 world_s1_gone)"

definition world_proto :: world where
  "world_proto =
     returned (subscribeClient env_ok ''__proto__'' 1 ''10.0.0.1-1700000000000'' ''10.0.0.1''
                 world0)"

definition world_proto_gone :: world where
  "world_proto_gone = returned (unsubscribeClient ''__proto__'' 1 world_proto)"

definition world_proto_again :: world where
  "world_proto_again =
     returned (subscribeClient env_ok ''__proto__'' 2 ''10.0.0.2-1700000000001'' ''10.0.0.2''
                 world_proto_gone)"

section \<open>Auxiliary facts\<close>

subsection \<open>Traces and the store during a broadcast\<close>

lemma writes_of_append: "writes_of (xs @ ys) = writes_of xs @ writes_of ys"
  by (simp add: writes_of_def)

lemma rewrites_of_append: "rewrites_of (xs @ ys) = rewrites_of xs @ rewrites_of ys"
  by (simp add: rewrites_of_def)

lemma deliver_heap: "heap (deliver e ch p r w) = heap w"
  by (simp add: deliver_def res_write_def console_error_def logChannel_def Let_def
      split: option.splits)

lemma deliver_writes:
  "writes_of (trace (deliver e ch p r w)) =
     writes_of (trace w) @ [(r, sse_frame e (heap_get (heap w) p))]"
  by (simp add: deliver_def res_write_def console_error_def logChannel_def Let_def
      writes_of_def split: option.splits)

lemma deliver_rewrites: "rewrites_of (trace (deliver e ch p r w)) = rewrites_of (trace w)"
  by (simp add: deliver_def res_write_def console_error_def logChannel_def Let_def
      rewrites_of_def split: option.splits)

lemma fold_deliver_heap: "heap (fold (deliver e ch p) rs w) = heap w"
  by (induction rs arbitrary: w) (simp_all add: deliver_heap)

lemma fold_deliver_writes:
  "writes_of (trace (fold (deliver e ch p) rs w)) =
     writes_of (trace w) @ map (\<lambda>r. (r, sse_frame e (heap_get (heap w) p))) rs"
  by (induction rs arbitrary: w) (simp_all add: deliver_writes deliver_heap)

lemma fold_deliver_rewrites:
  "rewrites_of (trace (fold (deliver e ch p) rs w)) = rewrites_of (trace w)"
  by (induction rs arbitrary: w) (simp_all add: deliver_rewrites)

lemma processMessage_verbatim:
  assumes "get_prop (heap_get (heap w) a) ''type'' = Inr t"
    and "t \<noteq> JStr ''initial_view''" and "t \<noteq> JStr ''view_change''"
  shows "processMessage e a w = Inr (a, w)"
  using assms by (simp add: processMessage_def)

lemma processMessage_no_view:
  assumes "get_prop (heap_get (heap w) a) ''type'' = Inr t"
    and "get_prop (heap_get (heap w) a) ''view'' = Inr v" and "\<not> truthy v"
  shows "processMessage e a w = Inr (a, w)"
  using assms by (simp add: processMessage_def Let_def)

lemma processMessage_view:
  assumes "get_prop (heap_get (heap w) a) ''type'' = Inr t"
    and "t = JStr ''initial_view'' \<or> t = JStr ''view_change''"
    and "get_prop (heap_get (heap w) a) ''view'' = Inr v" and "truthy v"
  shows "processMessage e a w =
           Inr (length (heap w),
                w\<lparr>trace := trace w @ [Rewrite v],
                  heap := heap w @ [JObj (AList.update ''view'' (rewriteImageUrls e v)
                                          (own_props (heap_get (heap w) a)))]\<rparr>)"
  using assms by (auto simp add: processMessage_def heap_alloc_def Let_def)

lemma typed_is_object:
  assumes "get_prop m ''type'' = Inr (JStr s)"
  shows "\<exists>fs. m = JObj fs"
  using assms by (cases m) simp_all

lemma processMessage_returns:
  assumes "heap_get (heap w) a \<noteq> JNull" and "heap_get (heap w) a \<noteq> JUndefined"
  shows "\<exists>p w1. processMessage e a w = Inr (p, w1)"
proof -
  obtain t where t: "get_prop (heap_get (heap w) a) ''type'' = Inr t"
    using assms by (cases "heap_get (heap w) a") simp_all
  obtain v where v: "get_prop (heap_get (heap w) a) ''view'' = Inr v"
    using assms by (cases "heap_get (heap w) a") simp_all
  show ?thesis
    by (simp add: processMessage_def t v heap_alloc_def Let_def)
qed

lemma processMessage_heap:
  assumes "processMessage e a w = Inr (p, w1)"
  shows "take (length (heap w)) (heap w1) = heap w \<and>
         (p = a \<and> heap w1 = heap w \<or> p = length (heap w) \<and> length (heap w1) = Suc p)"
  using assms
  by (auto simp add: processMessage_def heap_alloc_def Let_def split: sum.splits if_splits)

lemma logged_channels: "channels (logChannel text ch ctx w) = channels w"
  by (simp add: logChannel_def)

lemma sendToChannel_unfold:
  "sendToChannel e ch a w =
     (case map_of (channels w) ch of
        None \<Rightarrow> Inr (logChannel Publishing_message_to_channel ch (heap_get (heap w) a) w)
      | Some subscribers \<Rightarrow>
          (case processMessage e a
                  (logChannel Publishing_message_to_channel ch (heap_get (heap w) a) w) of
             Inl err \<Rightarrow> Inl err
           | Inr (p, w1) \<Rightarrow> Inr (fold (deliver e ch p) subscribers w1)))"
  by (simp add: sendToChannel_def broadcastToChannel_def logged_channels)

lemma logged_heap: "heap (logChannel text ch ctx w) = heap w"
  by (simp add: logChannel_def)

lemma logged_writes: "writes_of (trace (logChannel text ch ctx w)) = writes_of (trace w)"
  by (simp add: logChannel_def writes_of_def)

lemma logged_rewrites: "rewrites_of (trace (logChannel text ch ctx w)) = rewrites_of (trace w)"
  by (simp add: logChannel_def rewrites_of_def)

lemma send_verbatim:
  assumes subs: "map_of (channels w) ch = Some subscribers"
    and proc: "processMessage e a (logChannel Publishing_message_to_channel ch (heap_get (heap w) a) w)
                = Inr (a, logChannel Publishing_message_to_channel ch (heap_get (heap w) a) w)"
  shows "\<exists>w'. sendToChannel e ch a w = Inr w' \<and>
           writes_of (trace w') =
             writes_of (trace w) @ map (\<lambda>r. (r, sse_frame e (heap_get (heap w) a))) subscribers \<and>
           rewrites_of (trace w') = rewrites_of (trace w) \<and> heap w' = heap w"
  by (simp add: sendToChannel_unfold subs proc fold_deliver_writes fold_deliver_rewrites
      fold_deliver_heap logged_heap logged_writes logged_rewrites)

lemma send_transformed:
  assumes subs: "map_of (channels w) ch = Some subscribers"
    and ty: "get_prop (heap_get (heap w) a) ''type'' = Inr t"
    and kind: "t = JStr ''initial_view'' \<or> t = JStr ''view_change''"
    and view: "get_prop (heap_get (heap w) a) ''view'' = Inr v" and tr: "truthy v"
  shows "\<exists>w'. sendToChannel e ch a w = Inr w' \<and>
           writes_of (trace w') =
             writes_of (trace w) @
             map (\<lambda>r. (r, sse_frame e (JObj (AList.update ''view'' (rewriteImageUrls e v)
                                              (own_props (heap_get (heap w) a)))))) subscribers \<and>
           rewrites_of (trace w') = rewrites_of (trace w) @ [v]"
proof -
  let ?w0 = "logChannel Publishing_message_to_channel ch (heap_get (heap w) a) w"
  have pm: "processMessage e a ?w0 =
          Inr (length (heap ?w0),
               ?w0\<lparr>trace := trace ?w0 @ [Rewrite v],
                    heap := heap ?w0 @ [JObj (AList.update ''view'' (rewriteImageUrls e v)
                                              (own_props (heap_get (heap ?w0) a)))]\<rparr>)"
    by (rule processMessage_view [where t = t]) (simp_all add: logged_heap ty kind view tr)
  show ?thesis
    apply (simp add: sendToChannel_unfold subs pm fold_deliver_writes fold_deliver_rewrites)
    apply (simp add: logChannel_def writes_of_def rewrites_of_def heap_get_def)
    done
qed

lemma copy_fields:
  assumes "get_prop m ''type'' = Inr t" and "t = JStr ''initial_view'' \<or> t = JStr ''view_change''"
  shows "get_prop (JObj (AList.update ''view'' v' (own_props m))) ''view'' = Inr v' \<and>
         (\<forall>k. k \<noteq> ''view'' \<longrightarrow>
            get_prop (JObj (AList.update ''view'' v' (own_props m))) k = get_prop m k)"
proof -
  obtain fs where "m = JObj fs"
    using assms typed_is_object by blast
  then show ?thesis
    by (simp add: update_conv')
qed

subsection \<open>The operations return\<close>

lemma subscribeClient_returns: "\<exists>w'. subscribeClient e ch r cid ipa w = Inr w'"
  by (simp add: subscribeClient_def closeExisting_def Let_def update_conv' split: option.splits)

lemma unsubscribeClient_returns: "\<exists>w'. unsubscribeClient ch r w = Inr w'"
  by (simp add: unsubscribeClient_def Let_def split: option.splits)

lemma broadcastToChannel_returns:
  assumes "heap_get (heap w) a \<noteq> JNull" and "heap_get (heap w) a \<noteq> JUndefined"
  shows "\<exists>w'. broadcastToChannel e ch a w = Inr w'"
proof -
  from processMessage_returns [OF assms] obtain p w1 where "processMessage e a w = Inr (p, w1)"
    by blast
  then show ?thesis
    by (simp add: broadcastToChannel_def split: option.splits)
qed

lemma delete_absent:
  assumes "map_of al k = None"
  shows "AList.delete k al = al"
  using assms by (simp add: map_of_eq_None_iff)

subsection \<open>Eviction and subscription\<close>

lemma evict_clientMap: "clientMap (evict e ci w) = AList.delete (res ci) (clientMap w)"
  by (simp add: evict_def res_destroy_def Let_def split: option.splits)

lemma evict_ipConnections: "ipConnections (evict e ci w) = ipConnections w"
  by (simp add: evict_def res_destroy_def Let_def split: option.splits)

lemma evict_heap: "heap (evict e ci w) = heap w"
  by (simp add: evict_def res_destroy_def Let_def split: option.splits)

lemma evict_channels:
  "channels (evict e ci w) =
     (case map_of (channels w) (conn_channel ci) of
        None \<Rightarrow> channels w
      | Some cs \<Rightarrow> AList.update (conn_channel ci) (removeAll (res ci) cs) (channels w))"
  by (simp add: evict_def res_destroy_def Let_def split: option.splits)

lemma evict_trace:
  "trace (evict e ci w) =
     trace w @ (if res ci \<in> set (destroyed w) then [] else [Destroy (res ci)])"
  by (simp add: evict_def res_destroy_def Let_def split: option.splits)

lemma evict_destroyed:
  "destroyed (evict e ci w) =
     (if res ci \<in> set (destroyed w) \<or> destroy_throws e (res ci) then destroyed w
      else destroyed w @ [res ci])"
  by (simp add: evict_def res_destroy_def Let_def Set_add_def split: option.splits)

lemmas evict_fields = evict_clientMap evict_ipConnections evict_heap evict_channels
  evict_trace evict_destroyed

text \<open>The world after subscribeClient, in terms of the world after the eviction block.\<close>

lemma subscribeClient_normal:
  "subscribeClient e ch r cid ipa w =
     Inr (let w1 = closeExisting e ch cid ipa w;
              cs = Set_add (case map_of (channels w1) ch of None \<Rightarrow> [] | Some cs \<Rightarrow> cs) r;
              conns = (case map_of (ipConnections w1) ipa of None \<Rightarrow> [] | Some c \<Rightarrow> c)
          in w1\<lparr>channels := AList.update ch cs (channels w1),
                clientMap := AList.update r \<lparr>clientId = cid, channel = ch, ip = ipa\<rparr> (clientMap w1),
                ipConnections := AList.update ipa (conns @ [\<lparr>res = r, conn_channel = ch\<rparr>])
                                   (ipConnections w1),
                trace := trace w1 @
                  [Log Client_subscribed ch
                     (JObj [(''clientId'', JStr cid), (''ip'', JStr ipa),
                            (''totalClients'', JNum (int (length cs)))]),
                   OnClose r ch]\<rparr>)"
proof (cases "map_of (channels (closeExisting e ch cid ipa w)) ch")
  case None
  note c = None
  show ?thesis
  proof (cases "map_of (ipConnections (closeExisting e ch cid ipa w)) ipa")
    case None
    with c show ?thesis
      by (simp add: subscribeClient_def Let_def update_conv' logChannel_def)
  next
    case (Some conns)
    with c show ?thesis
      by (simp add: subscribeClient_def Let_def update_conv' logChannel_def)
  qed
next
  case (Some cs)
  note c = Some
  show ?thesis
  proof (cases "map_of (ipConnections (closeExisting e ch cid ipa w)) ipa")
    case None
    with c show ?thesis
      by (simp add: subscribeClient_def Let_def update_conv' logChannel_def)
  next
    case (Some conns)
    with c show ?thesis
      by (simp add: subscribeClient_def Let_def update_conv' logChannel_def)
  qed
qed

lemma subscribeClient_fields:
  assumes "subscribeClient e ch r cid ipa w = Inr w'"
  shows "channels w' =
           AList.update ch
             (Set_add (case map_of (channels (closeExisting e ch cid ipa w)) ch of
                         None \<Rightarrow> [] | Some cs \<Rightarrow> cs) r)
             (channels (closeExisting e ch cid ipa w))"
    and "clientMap w' =
           AList.update r \<lparr>clientId = cid, channel = ch, ip = ipa\<rparr>
             (clientMap (closeExisting e ch cid ipa w))"
    and "ipConnections w' =
           AList.update ipa
             ((case map_of (ipConnections (closeExisting e ch cid ipa w)) ipa of
                 None \<Rightarrow> [] | Some c \<Rightarrow> c) @ [\<lparr>res = r, conn_channel = ch\<rparr>])
             (ipConnections (closeExisting e ch cid ipa w))"
    and "destroyed w' = destroyed (closeExisting e ch cid ipa w)"
    and "heap w' = heap (closeExisting e ch cid ipa w)"
    and "set (trace (closeExisting e ch cid ipa w)) \<subseteq> set (trace w')"
  using assms by (auto simp add: subscribeClient_normal Let_def)

lemma closeExisting_single:
  assumes "map_of (ipConnections w) A = Some [prior]"
  shows "clientMap (closeExisting e ch cid A w) = AList.delete (res prior) (clientMap w)"
    and "ipConnections (closeExisting e ch cid A w) = AList.delete A (ipConnections w)"
    and "channels (closeExisting e ch cid A w) =
           (case map_of (channels w) (conn_channel prior) of
              None \<Rightarrow> channels w
            | Some cs \<Rightarrow> AList.update (conn_channel prior) (removeAll (res prior) cs) (channels w))"
    and "trace (closeExisting e ch cid A w) =
           trace w @ Log (Closing_existing_connections 1) ch
                       (JObj [(''ip'', JStr A), (''clientId'', JStr cid)]) #
           (if res prior \<in> set (destroyed w) then [] else [Destroy (res prior)])"
    and "destroyed (closeExisting e ch cid A w) =
           (if res prior \<in> set (destroyed w) \<or> destroy_throws e (res prior) then destroyed w
            else destroyed w @ [res prior])"
  using assms
  by (simp_all add: closeExisting_def Let_def evict_fields logChannel_def split: option.split)
lemma map_of_update_present:
  "map_of (case map_of al k of None \<Rightarrow> al | Some old \<Rightarrow> AList.update k (f old) al) k =
     map_option f (map_of al k)"
  by (simp add: update_conv' split: option.split)

subsection \<open>Timestamps and channel statistics\<close>

lemma parse_timestamp_positive:
  assumes "parse_timestamp cid = Some t"
  shows "0 < t"
  using assms by (simp add: parse_timestamp_def Let_def split: option.splits if_splits)

lemma connectedAt_in_range:
  assumes "timestamp_in_range cid"
  shows "connectedAt_of (parse_timestamp cid) =
           Inr (map_option ISO (parse_timestamp cid))"
proof (cases "parse_timestamp cid")
  case None
  then show ?thesis
    by (simp add: connectedAt_of_def)
next
  case (Some t)
  with assms parse_timestamp_positive [OF Some] show ?thesis
    by (simp add: connectedAt_of_def toISOString_def timestamp_in_range_def)
qed

lemma stats_client_of_returns:
  assumes "list_all (\<lambda>(r, info). timestamp_in_range (clientId info)) cm"
  shows "\<exists>c. stats_client_of cm r = Inr c"
proof (cases "map_of cm r")
  case None
  then show ?thesis
    by (simp add: stats_client_of_def)
next
  case (Some info)
  then have "(r, info) \<in> set cm"
    by (rule map_of_SomeD)
  with assms have "timestamp_in_range (clientId info)"
    by (auto simp add: list_all_iff)
  then show ?thesis
    by (simp add: stats_client_of_def Some connectedAt_in_range Let_def)
qed

lemma collect_returns:
  assumes "\<And>x. \<exists>y. f x = Inr y"
  shows "\<exists>ys. collect f xs = Inr ys"
proof (induction xs)
  case Nil
  show ?case by simp
next
  case (Cons x xs)
  from assms obtain y where "f x = Inr y"
    by blast
  with Cons show ?case
    by auto
qed

lemma stats_forEach_returns:
  assumes "list_all (\<lambda>(r, info). timestamp_in_range (clientId info)) cm"
  shows "\<exists>stats. stats_forEach cm chs st = Inr stats"
proof (induction chs arbitrary: st)
  case Nil
  show ?case by simp
next
  case (Cons c chs)
  obtain ch rs where c: "c = (ch, rs)"
    by (cases c)
  obtain cl where "collect (stats_client_of cm) rs = Inr cl"
    using collect_returns [of "stats_client_of cm" rs] stats_client_of_returns [OF assms] by blast
  with Cons show ?case
    by (simp add: c)
qed

lemma insert_index_lookup:
  assumes "map_of ps k = None"
  shows "map_of (insert_index n k v ps) x = (if x = k then Some v else map_of ps x)"
  using assms
proof (induction ps)
  case Nil
  show ?case by simp
next
  case (Cons p ps)
  from Cons.prems have ne: "fst p \<noteq> k" and rest: "map_of ps k = None"
    by (auto split: if_splits)
  show ?case
  proof (cases "array_index (fst p)")
    case None
    then show ?thesis by simp
  next
    case (Some m)
    then show ?thesis
      using Cons.IH [OF rest] ne by auto
  qed
qed

lemma insert_index_map_of:
  assumes "map_of ps k = None"
  shows "map_of (insert_index n k v ps) = (map_of ps)(k \<mapsto> v)"
  using insert_index_lookup [OF assms] by (intro ext) simp

lemma object_set_map_of:
  assumes "k \<noteq> ''__proto__''"
  shows "map_of (object_set k v ps) = (map_of ps)(k \<mapsto> v)"
proof (cases "map_of ps k")
  case None
  have "map_of (ps @ [(k, v)]) = (map_of ps)(k \<mapsto> v)"
    using None by (intro ext) (auto simp add: map_add_def split: option.splits)
  with None show ?thesis
    using assms
    by (cases "array_index k") (simp_all add: object_set_def insert_index_map_of)
next
  case (Some old)
  then show ?thesis
    using assms by (simp add: object_set_def update_conv')
qed

lemma object_set_other:
  assumes "X \<noteq> k"
  shows "map_of (object_set k v ps) X = map_of ps X"
proof (cases "k = ''__proto__''")
  case True
  then show ?thesis
    by (simp add: object_set_def)
next
  case False
  show ?thesis
    using assms by (simp add: object_set_map_of [OF False])
qed

lemma stats_forEach_other:
  assumes "stats_forEach cm chs st = Inr stats" and "X \<notin> fst ` set chs"
  shows "map_of stats X = map_of st X"
  using assms
proof (induction chs arbitrary: st)
  case Nil
  then show ?case by simp
next
  case (Cons c chs)
  obtain ch rs where c: "c = (ch, rs)"
    by (cases c)
  from Cons.prems obtain cl where cl: "collect (stats_client_of cm) rs = Inr cl"
    and rest: "stats_forEach cm chs
                 (object_set ch \<lparr>clientCount = length rs, clients = cl\<rparr> st) = Inr stats"
    by (auto simp add: c split: sum.splits)
  from Cons.prems have "X \<noteq> ch" and "X \<notin> fst ` set chs"
    by (auto simp add: c)
  with Cons.IH [OF rest] show ?case
    by (simp add: object_set_other)
qed

lemma stats_forEach_append:
  "stats_forEach cm (xs @ ys) st =
     (case stats_forEach cm xs st of Inl err \<Rightarrow> Inl err | Inr st' \<Rightarrow> stats_forEach cm ys st')"
proof (induction xs arbitrary: st)
  case Nil
  show ?case by simp
next
  case (Cons c xs)
  obtain ch rs where c: "c = (ch, rs)"
    by (cases c)
  show ?case
    by (simp add: c Cons.IH split: sum.splits)
qed

lemma stats_forEach_last:
  assumes "stats_forEach cm (chs @ [(X, rs)]) st = Inr stats" and "X \<noteq> ''__proto__''"
  shows "\<exists>cl. collect (stats_client_of cm) rs = Inr cl \<and>
           map_of stats X = Some \<lparr>clientCount = length rs, clients = cl\<rparr>"
  using assms
  by (auto simp add: stats_forEach_append object_set_map_of split: sum.splits)

lemma update_absent:
  assumes "k \<notin> fst ` set al"
  shows "AList.update k v al = al @ [(k, v)]"
  using assms by (induction al) auto

lemma evict_channel_keys: "map fst (channels (evict e ci w)) = map fst (channels w)"
proof (cases "map_of (channels w) (conn_channel ci)")
  case None
  then show ?thesis
    by (simp add: evict_channels)
next
  case (Some cs)
  then have "conn_channel ci \<in> fst ` set (channels w)"
    by (meson domI domIff map_of_eq_None_iff)
  with Some show ?thesis
    by (simp add: evict_channels update_keys)
qed

lemma fold_evict_channel_keys:
  "map fst (channels (fold (evict e) cis w)) = map fst (channels w)"
  by (induction cis arbitrary: w) (simp_all add: evict_channel_keys)

lemma closeExisting_channel_keys:
  "map fst (channels (closeExisting e ch cid ipa w)) = map fst (channels w)"
  by (simp add: closeExisting_def Let_def fold_evict_channel_keys logChannel_def
      split: option.split)

lemma delete_subset: "set (AList.delete k al) \<subseteq> set al"
  by (auto simp add: AList.delete_eq)

lemma fold_evict_clientMap: "set (clientMap (fold (evict e) cis w)) \<subseteq> set (clientMap w)"
proof (induction cis arbitrary: w)
  case Nil
  show ?case by simp
next
  case (Cons ci cis)
  have "set (clientMap (fold (evict e) cis (evict e ci w))) \<subseteq> set (clientMap (evict e ci w))"
    by (rule Cons.IH)
  also have "\<dots> \<subseteq> set (clientMap w)"
    by (simp add: evict_clientMap delete_subset)
  finally show ?case
    by simp
qed

lemma closeExisting_clientMap:
  "set (clientMap (closeExisting e ch cid ipa w)) \<subseteq> set (clientMap w)"
proof (cases "map_of (ipConnections w) ipa")
  case None
  then show ?thesis
    by (simp add: closeExisting_def)
next
  case (Some cis)
  let ?wa = "logChannel (Closing_existing_connections (length cis)) ch
               (JObj [(''ip'', JStr ipa), (''clientId'', JStr cid)]) w"
  have "clientMap ?wa = clientMap w"
    by (simp add: logChannel_def)
  with fold_evict_clientMap [of e cis ?wa]
  have "set (clientMap (fold (evict e) cis ?wa)) \<subseteq> set (clientMap w)"
    by simp
  with Some show ?thesis
    by (simp add: closeExisting_def Let_def)
qed

lemma update_subset: "set (AList.update k v al) \<subseteq> insert (k, v) (set al)"
  by (induction al) auto

lemma list_all_subset_insert:
  assumes "set ys \<subseteq> insert x (set xs)" and "list_all P xs" and "P x"
  shows "list_all P ys"
  using assms unfolding list_all_iff by blast

lemma unsubscribe_last:
  assumes "map_of (channels w) X = Some [s]"
  shows "\<exists>w1. unsubscribeClient X s w = Inr w1 \<and>
           channels w1 = AList.delete X (AList.update X [] (channels w)) \<and>
           clientMap w1 = AList.delete s (clientMap w)"
  using assms
  by (simp add: unsubscribeClient_def Let_def logChannel_def split: option.split)

lemma collect_single_stats:
  assumes "map_of cm r = Some info" and "collect (stats_client_of cm) [r] = Inr cl"
  shows "map stats_clientId cl = [clientId info] \<and> map stats_ip cl = [ip info]"
  using assms
  by (auto simp add: stats_client_of_def Let_def split: sum.splits)

lemma extractClientInfo_unparsed:
  assumes "parse_timestamp (clientId info) = None"
  shows "extractClientInfo info =
           Inr \<lparr>view_clientId = clientId info, view_channel = channel info, view_ip = ip info,
                connectedAt = None, connectedAtTimestamp = None\<rparr>"
  using assms by (simp add: extractClientInfo_def connectedAt_of_def)

lemma extractClientInfo_in_range:
  assumes "parse_timestamp (clientId info) = Some t" and "t \<le> max_time_value"
  shows "extractClientInfo info =
           Inr \<lparr>view_clientId = clientId info, view_channel = channel info, view_ip = ip info,
                connectedAt = Some (ISO t), connectedAtTimestamp = Some t\<rparr>"
  using assms parse_timestamp_positive [OF assms(1)]
  by (simp add: extractClientInfo_def connectedAt_of_def toISOString_def)

lemma extractClientInfo_out_of_range:
  assumes "parse_timestamp (clientId info) = Some t" and "max_time_value < t"
  shows "extractClientInfo info = Inl RangeError"
  using assms parse_timestamp_positive [OF assms(1)]
  by (simp add: extractClientInfo_def connectedAt_of_def toISOString_def)

text \<open>What holds of the channel index and of the statistics when the last subscriber of a
  channel leaves and a subscriber arrives again.\<close>

lemma last_unsubscribe_then_subscribe:
  assumes single: "map_of (channels w) X = Some [s]"
    and name: "X \<noteq> ''__proto__''"
  shows "\<exists>w1. unsubscribeClient X s w = Inr w1 \<and>
           map_of (channels w1) X = None \<and>
           (\<forall>stats. getChannelStats w1 = Inr stats \<longrightarrow> map_of stats X = None) \<and>
           (clientIds_in_range w \<longrightarrow> (\<exists>stats. getChannelStats w1 = Inr stats)) \<and>
           (\<forall>e r cid ipa. \<exists>w2.
              subscribeClient e X r cid ipa w1 = Inr w2 \<and>
              map_of (channels w2) X = Some [r] \<and>
              (\<forall>stats. getChannelStats w2 = Inr stats \<longrightarrow>
                 (\<exists>st. map_of stats X = Some st \<and> clientCount st = 1 \<and>
                       map stats_clientId (clients st) = [cid])) \<and>
              (clientIds_in_range w \<and> timestamp_in_range cid \<longrightarrow>
                 (\<exists>stats. getChannelStats w2 = Inr stats)))"
proof -
  from unsubscribe_last [OF single] obtain w1
    where w1: "unsubscribeClient X s w = Inr w1"
      and ch1: "channels w1 = AList.delete X (AList.update X [] (channels w))"
      and cm1: "clientMap w1 = AList.delete s (clientMap w)"
    by blast
  have absent: "X \<notin> fst ` set (channels w1)"
    unfolding ch1 by (rule delete_notin_dom)
  then have none1: "map_of (channels w1) X = None"
    by (simp add: map_of_eq_None_iff)
  have stats1: "map_of stats X = None" if "getChannelStats w1 = Inr stats" for stats
    using stats_forEach_other [OF that [unfolded getChannelStats_def] absent] by simp
  have sub1: "set (clientMap w1) \<subseteq> set (clientMap w)"
    unfolding cm1 by (rule delete_subset)
  have ret1: "\<exists>stats. getChannelStats w1 = Inr stats" if "clientIds_in_range w"
  proof -
    from that sub1 have "list_all (\<lambda>(r, info). timestamp_in_range (clientId info)) (clientMap w1)"
      by (auto simp add: clientIds_in_range_def list_all_iff)
    then show ?thesis
      unfolding getChannelStats_def by (rule stats_forEach_returns)
  qed
  have again: "\<exists>w2. subscribeClient e X r cid ipa w1 = Inr w2 \<and>
              map_of (channels w2) X = Some [r] \<and>
              (\<forall>stats. getChannelStats w2 = Inr stats \<longrightarrow>
                 (\<exists>st. map_of stats X = Some st \<and> clientCount st = 1 \<and>
                       map stats_clientId (clients st) = [cid])) \<and>
              (clientIds_in_range w \<and> timestamp_in_range cid \<longrightarrow>
                 (\<exists>stats. getChannelStats w2 = Inr stats))" for e r cid ipa
  proof -
    let ?c1 = "closeExisting e X cid ipa w1"
    obtain w2 where w2: "subscribeClient e X r cid ipa w1 = Inr w2"
      by (simp add: subscribeClient_normal)
    note f = subscribeClient_fields [OF w2]
    have absent': "X \<notin> fst ` set (channels ?c1)"
      using absent closeExisting_channel_keys [of e X cid ipa w1]
      by (metis set_map)
    then have "map_of (channels ?c1) X = None"
      by (simp add: map_of_eq_None_iff)
    then have ch2: "channels w2 = channels ?c1 @ [(X, [r])]"
      using absent' by (simp add: f(1) Set_add_def update_absent)
    then have some2: "map_of (channels w2) X = Some [r]"
      using \<open>map_of (channels ?c1) X = None\<close> by (simp add: map_add_def map_of_append)
    have info2: "map_of (clientMap w2) r = Some \<lparr>clientId = cid, channel = X, ip = ipa\<rparr>"
      by (simp add: f(2) update_conv')
    have stats2: "\<exists>st. map_of stats X = Some st \<and> clientCount st = 1 \<and>
                       map stats_clientId (clients st) = [cid]"
      if "getChannelStats w2 = Inr stats" for stats
    proof -
      from that have "stats_forEach (clientMap w2) (channels ?c1 @ [(X, [r])]) [] = Inr stats"
        by (simp add: getChannelStats_def ch2)
      from stats_forEach_last [OF this name] obtain cl
        where cl: "collect (stats_client_of (clientMap w2)) [r] = Inr cl"
          and st: "map_of stats X = Some \<lparr>clientCount = length [r], clients = cl\<rparr>"
        by blast
      from collect_single_stats [OF info2 cl] st show ?thesis
        by simp
    qed
    have ret2: "\<exists>stats. getChannelStats w2 = Inr stats"
      if "clientIds_in_range w \<and> timestamp_in_range cid"
    proof -
      have "set (clientMap w2) \<subseteq>
              insert (r, \<lparr>clientId = cid, channel = X, ip = ipa\<rparr>) (set (clientMap ?c1))"
        unfolding f(2) by (rule update_subset)
      moreover have "set (clientMap ?c1) \<subseteq> set (clientMap w)"
        using closeExisting_clientMap [of e X cid ipa w1] sub1 by blast
      ultimately have "set (clientMap w2) \<subseteq>
              insert (r, \<lparr>clientId = cid, channel = X, ip = ipa\<rparr>) (set (clientMap w))"
        by blast
      moreover from that
      have "list_all (\<lambda>(r, info). timestamp_in_range (clientId info)) (clientMap w)"
        by (simp add: clientIds_in_range_def)
      moreover from that
      have "(\<lambda>(r, info). timestamp_in_range (clientId info))
              (r, \<lparr>clientId = cid, channel = X, ip = ipa\<rparr>)"
        by simp
      ultimately
      have "list_all (\<lambda>(r, info). timestamp_in_range (clientId info)) (clientMap w2)"
        by (rule list_all_subset_insert)
      then show ?thesis
        unfolding getChannelStats_def by (rule stats_forEach_returns)
    qed
    from w2 some2 stats2 ret2 show ?thesis
      by blast
  qed
  from w1 none1 stats1 ret1 again show ?thesis
    by blast
qed

subsection \<open>The example worlds\<close>

lemmas model_defs = subscribeClient_def closeExisting_def unsubscribeClient_def sendToChannel_def
  broadcastToChannel_def processMessage_def deliver_def evict_def res_write_def res_destroy_def
  logChannel_def console_error_def Set_add_def heap_get_def heap_alloc_def sse_frame_def
  empty_world_def Let_def

lemmas object_defs = object_set_def array_index_def is_decimal_digit_def

lemmas example_defs = returned_def example_stringify_def env_ok_def env_s1_fails_def msg_ping_def
  msg_view_def msg_view_no_payload_def world0_def world_s1_def world_s1_s2_def world_evicted_def
  world_bad_id_def world_s1_failed_def world_s2_left_def world_after_view_def
  world_s1_gone_def world_s3_bad_id_def world_proto_def world_proto_gone_def
  world_proto_again_def

lemmas parse_defs = parse_timestamp_def parseInt_def is_white_space_def digit_value_def
  is_digit_of_def digits_value_def connectedAt_of_def toISOString_def max_time_value_def

lemma world_s1_eq:
  "world_s1 = \<lparr>channels = [(''X'', [1])],
               clientMap = [(1, \<lparr>clientId = ''10.0.0.1-1700000000000'', channel = ''X'', ip = ''10.0.0.1''\<rparr>)],
               ipConnections = [(''10.0.0.1'', [\<lparr>res = 1, conn_channel = ''X''\<rparr>])],
               heap = [msg_ping, msg_view, JNull, msg_view_no_payload],
               destroyed = [],
               trace = [Log Client_subscribed ''X''
                          (JObj [(''clientId'', JStr ''10.0.0.1-1700000000000''),
                                 (''ip'', JStr ''10.0.0.1''), (''totalClients'', JNum 1)]),
                        OnClose 1 ''X'']\<rparr>"
  by (simp add: world_s1_def world0_def returned_def env_ok_def model_defs)

lemma world_s1_s2_eq:
  "world_s1_s2 = world_s1
     \<lparr>channels := [(''X'', [1, 2])],
      clientMap := [(1, \<lparr>clientId = ''10.0.0.1-1700000000000'', channel = ''X'', ip = ''10.0.0.1''\<rparr>),
                    (2, \<lparr>clientId = ''10.0.0.2-1700000000001'', channel = ''X'', ip = ''10.0.0.2''\<rparr>)],
      ipConnections := [(''10.0.0.1'', [\<lparr>res = 1, conn_channel = ''X''\<rparr>]),
                        (''10.0.0.2'', [\<lparr>res = 2, conn_channel = ''X''\<rparr>])],
      trace := trace world_s1 @
               [Log Client_subscribed ''X''
                  (JObj [(''clientId'', JStr ''10.0.0.2-1700000000001''),
                         (''ip'', JStr ''10.0.0.2''), (''totalClients'', JNum 2)]),
                OnClose 2 ''X'']\<rparr>"
  by (simp add: world_s1_s2_def world_s1_eq returned_def env_ok_def model_defs)

section \<open>The claims\<close>

text \<open>
  C1. After every operation of a run from the empty registry the global invariants hold,
  in particular after a broadcast in which a write fails. The run below subscribes
  connection 1 to channel X and broadcasts with the write to 1 failing: the entry of X
  stays in the channel index with an empty set (and is reported with count 0), and the
  address binding still holds connection 1, which has no metadata any more.
\<close>

theorem failed_write_leaves_empty_channel_entry:
  "channels world_s1 = [(''X'', [1])] \<and>
   channels world_s1_failed = [(''X'', [])] \<and>
   clientMap world_s1_failed = [] \<and>
   ipConnections world_s1_failed = [(''10.0.0.1'', [\<lparr>res = 1, conn_channel = ''X''\<rparr>])] \<and>
   getChannelStats world_s1_failed = Inr [(''X'', \<lparr>clientCount = 0, clients = []\<rparr>)]"
  by (simp add: example_defs model_defs getChannelStats_def object_defs)

text \<open>
  C2. A broadcast to a channel with subscribers 1 and 2, where the write to 1 fails and the
  write to 2 succeeds: both writes are attempted, 1 leaves the channel set and the metadata
  map and the next broadcast writes to 2 only, but 1 stays in the address binding.
\<close>

theorem failed_write_keeps_address_binding:
  "channels world_s1_s2 = [(''X'', [1, 2])] \<and>
   writes_of (trace world_s2_left) = [(1, sse_frame env_ok msg_ping), (2, sse_frame env_ok msg_ping)] \<and>
   channels world_s2_left = [(''X'', [2])] \<and>
   map fst (clientMap world_s2_left) = [2] \<and>
   ipConnections world_s2_left =
     [(''10.0.0.1'', [\<lparr>res = 1, conn_channel = ''X''\<rparr>]),
      (''10.0.0.2'', [\<lparr>res = 2, conn_channel = ''X''\<rparr>])] \<and>
   writes_of (trace (returned (sendToChannel env_s1_fails ''X'' 0 world_s2_left))) =
     writes_of (trace world_s2_left) @ [(2, sse_frame env_ok msg_ping)]"
  by (simp add: example_defs model_defs writes_of_def)

text \<open>
  C3. When address A is bound to one prior connection, subscribing a new connection from A
  returns; \<^verbatim>\<open>destroy\<close> is called on the prior connection unless it was destroyed already,
  whether or not the call throws; the prior connection is in no set of its channel, has no
  metadata, and the binding of A holds the new connection only; if the prior connection was
  the only one with metadata for A, the new one is the only one afterwards.
\<close>

theorem subscribe_evicts_prior_connection:
  assumes bound: "map_of (ipConnections w) A = Some [prior]"
    and new: "r \<noteq> res prior"
  shows "\<exists>w'. subscribeClient e ch r cid A w = Inr w' \<and>
           (res prior \<in> set (destroyed w) \<or> Destroy (res prior) \<in> set (trace w')) \<and>
           (\<not> destroy_throws e (res prior) \<longrightarrow> res prior \<in> set (destroyed w')) \<and>
           (\<forall>cs. map_of (channels w') (conn_channel prior) = Some cs \<longrightarrow> res prior \<notin> set cs) \<and>
           map_of (clientMap w') (res prior) = None \<and>
           map_of (ipConnections w') A = Some [\<lparr>res = r, conn_channel = ch\<rparr>] \<and>
           map_of (clientMap w') r = Some \<lparr>clientId = cid, channel = ch, ip = A\<rparr> \<and>
           (\<exists>cs. map_of (channels w') ch = Some cs \<and> r \<in> set cs) \<and>
           ((\<forall>r' info. map_of (clientMap w) r' = Some info \<and> ip info = A \<longrightarrow> r' = res prior) \<longrightarrow>
            (\<forall>r' info. map_of (clientMap w') r' = Some info \<and> ip info = A \<longrightarrow> r' = r))"
proof -
  note ce = closeExisting_single [OF bound, of e ch cid]
  let ?w1 = "closeExisting e ch cid A w"
  obtain w' where w': "subscribeClient e ch r cid A w = Inr w'"
    by (simp add: subscribeClient_normal)
  note f = subscribeClient_fields [OF w']
  have tr: "res prior \<in> set (destroyed w) \<or> Destroy (res prior) \<in> set (trace w')"
    using f(6) by (auto simp add: ce split: if_splits)
  have de: "\<not> destroy_throws e (res prior) \<longrightarrow> res prior \<in> set (destroyed w')"
    by (simp add: f(4) ce)
  have cm: "map_of (clientMap w') r' =
              (if r' = r then Some \<lparr>clientId = cid, channel = ch, ip = A\<rparr>
               else if r' = res prior then None else map_of (clientMap w) r')" for r'
    by (simp add: f(2) ce update_conv' delete_conv')
  have ipc: "map_of (ipConnections w') A = Some [\<lparr>res = r, conn_channel = ch\<rparr>]"
    by (simp add: f(3) ce update_conv' delete_conv')
  have chn: "\<exists>cs. map_of (channels w') ch = Some cs \<and> r \<in> set cs"
    by (simp add: f(1) update_conv' Set_add_def)
  have m1: "map_of (channels ?w1) (conn_channel prior) =
              map_option (removeAll (res prior)) (map_of (channels w) (conn_channel prior))"
    unfolding ce(3) by (rule map_of_update_present)
  have gone: "res prior \<notin> set cs" if c: "map_of (channels w') (conn_channel prior) = Some cs" for cs
  proof (cases "conn_channel prior = ch")
    case True
    have "cs = Set_add (case map_of (channels ?w1) ch of None \<Rightarrow> [] | Some cs \<Rightarrow> cs) r"
      using c by (simp add: f(1) update_conv' True)
    moreover have "res prior \<notin> set (case map_of (channels ?w1) ch of None \<Rightarrow> [] | Some cs \<Rightarrow> cs)"
      using m1 by (cases "map_of (channels w) (conn_channel prior)") (simp_all add: True)
    ultimately show ?thesis
      using new by (simp add: Set_add_def)
  next
    case False
    then have "map_of (channels ?w1) (conn_channel prior) = Some cs"
      using c by (simp add: f(1) update_conv')
    with m1 show ?thesis
      by (cases "map_of (channels w) (conn_channel prior)") auto
  qed
  have one: "r' = r"
    if old: "\<forall>r' info. map_of (clientMap w) r' = Some info \<and> ip info = A \<longrightarrow> r' = res prior"
      and here: "map_of (clientMap w') r' = Some info \<and> ip info = A" for r' info
  proof (rule ccontr)
    assume "r' \<noteq> r"
    with here cm [of r'] have "r' \<noteq> res prior" and "map_of (clientMap w) r' = Some info"
      by (auto split: if_splits)
    with old here show False
      by blast
  qed
  have "map_of (clientMap w') (res prior) = None"
    using new by (simp add: cm)
  moreover have "map_of (clientMap w') r = Some \<lparr>clientId = cid, channel = ch, ip = A\<rparr>"
    by (simp add: cm)
  ultimately show ?thesis
    using w' tr de gone ipc chn one by blast
qed

theorem subscribe_evicts_prior_connection_witness:
  "map_of (ipConnections world_s1) ''10.0.0.1'' = Some [\<lparr>res = 1, conn_channel = ''X''\<rparr>] \<and>
   (2::nat) \<noteq> res \<lparr>res = 1, conn_channel = ''X''\<rparr> \<and>
   (\<exists>w'. subscribeClient env_ok ''Y'' 2 ''10.0.0.1-1700000000002'' ''10.0.0.1'' world_s1 = Inr w' \<and>
         Destroy 1 \<in> set (trace w') \<and>
         map_of (clientMap w') 1 = None \<and>
         map_of (ipConnections w') ''10.0.0.1'' = Some [\<lparr>res = 2, conn_channel = ''Y''\<rparr>])"
proof -
  have h1: "map_of (ipConnections world_s1) ''10.0.0.1'' = Some [\<lparr>res = 1, conn_channel = ''X''\<rparr>]"
    by (simp add: world_s1_eq)
  have h2: "(2::nat) \<noteq> res \<lparr>res = 1, conn_channel = ''X''\<rparr>"
    by simp
  have h3: "res \<lparr>res = 1, conn_channel = ''X''\<rparr> \<notin> set (destroyed world_s1)"
    by (simp add: world_s1_eq)
  from subscribe_evicts_prior_connection [OF h1 h2, of env_ok "''Y''" "''10.0.0.1-1700000000002''"] h3
  have "\<exists>w'. subscribeClient env_ok ''Y'' 2 ''10.0.0.1-1700000000002'' ''10.0.0.1'' world_s1 = Inr w' \<and>
         Destroy 1 \<in> set (trace w') \<and>
         map_of (clientMap w') 1 = None \<and>
         map_of (ipConnections w') ''10.0.0.1'' = Some [\<lparr>res = 2, conn_channel = ''Y''\<rparr>]"
    by simp blast
  with h1 h2 show ?thesis
    by blast
qed

text \<open>
  C4, as amended. Unsubscribing a connection that has no metadata and is not in the set of
  the named channel leaves the whole state unchanged, except that an entry of the named
  channel with an empty set is deleted from the channel index.
\<close>

theorem unsubscribe_unregistered:
  assumes "map_of (clientMap w) r = None"
    and "\<forall>subscribers. map_of (channels w) ch = Some subscribers \<longrightarrow> r \<notin> set subscribers"
  shows "unsubscribeClient ch r w =
           Inr (if map_of (channels w) ch = Some [] then w\<lparr>channels := AList.delete ch (channels w)\<rparr>
                else w)"
proof (cases "map_of (channels w) ch")
  case None
  then show ?thesis
    by (simp add: unsubscribeClient_def)
next
  case (Some subscribers)
  with assms(2) have "removeAll r subscribers = subscribers"
    by simp
  moreover have "AList.update ch subscribers (channels w) = channels w"
    using Some by (rule update_triv)
  moreover have "AList.delete r (clientMap w) = clientMap w"
    using assms(1) by (rule delete_absent)
  ultimately show ?thesis
    using Some assms(1)
    by (cases "subscribers = []") (simp_all add: unsubscribeClient_def Let_def)
qed

theorem unsubscribe_unregistered_witness:
  "map_of (clientMap world_s1) 5 = None \<and>
   map_of (channels world_s1) ''X'' = Some [1] \<and> 5 \<notin> set [1::nat] \<and>
   unsubscribeClient ''X'' 5 world_s1 = Inr world_s1"
proof -
  have h1: "map_of (clientMap world_s1) 5 = None"
    by (simp add: world_s1_eq)
  have c: "map_of (channels world_s1) ''X'' = Some [1]"
    by (simp add: world_s1_eq)
  have n: "5 \<notin> set [1::nat]"
    by simp
  have h2: "\<forall>subscribers. map_of (channels world_s1) ''X'' = Some subscribers \<longrightarrow> 5 \<notin> set subscribers"
    by (simp add: c)
  have "map_of (channels world_s1) ''X'' \<noteq> Some []"
    by (simp add: c)
  with unsubscribe_unregistered [OF h1 h2] have "unsubscribeClient ''X'' 5 world_s1 = Inr world_s1"
    by simp
  with h1 c n show ?thesis
    by blast
qed

text \<open>
  As stated, for every connection that is not registered, the claim fails: after a second
  subscription from the same address has evicted connection 1, the entry of its channel X
  is left with an empty set, and unsubscribing 1 from X deletes that entry.
\<close>

theorem unsubscribe_evicted_handle_changes_index:
  "map_of (clientMap world_evicted) 1 = None \<and>
   channels world_evicted = [(''X'', []), (''Y'', [2])] \<and>
   ipConnections world_evicted = [(''10.0.0.1'', [\<lparr>res = 2, conn_channel = ''Y''\<rparr>])] \<and>
   channels (returned (unsubscribeClient ''X'' 1 world_evicted)) = [(''Y'', [2])] \<and>
   unsubscribeClient ''X'' 1 world_evicted \<noteq> Inr world_evicted"
  by (simp add: example_defs model_defs)

text \<open>
  C5. A message of type \<^verbatim>\<open>initial_view\<close> or \<^verbatim>\<open>view_change\<close> with a truthy \<^verbatim>\<open>view\<close>
  is written to every subscriber of the channel, once and in order, as a copy whose
  \<^verbatim>\<open>view\<close> is \<^verbatim>\<open>rewriteImageUrls\<close> of the original one and whose other fields are
  the original ones; a message of any other type is written as it is.
\<close>

theorem broadcast_transforms_view_messages_only:
  assumes "map_of (channels w) ch = Some subscribers"
    and "get_prop (heap_get (heap w) a) ''type'' = Inr t"
    and "get_prop (heap_get (heap w) a) ''view'' = Inr v"
  shows "((t = JStr ''initial_view'' \<or> t = JStr ''view_change'') \<and> truthy v \<longrightarrow>
            (\<exists>w' copy. sendToChannel e ch a w = Inr w' \<and>
               writes_of (trace w') =
                 writes_of (trace w) @ map (\<lambda>r. (r, sse_frame e copy)) subscribers \<and>
               get_prop copy ''view'' = Inr (rewriteImageUrls e v) \<and>
               (\<forall>k. k \<noteq> ''view'' \<longrightarrow> get_prop copy k = get_prop (heap_get (heap w) a) k))) \<and>
         (t \<noteq> JStr ''initial_view'' \<and> t \<noteq> JStr ''view_change'' \<longrightarrow>
            (\<exists>w'. sendToChannel e ch a w = Inr w' \<and>
               writes_of (trace w') =
                 writes_of (trace w) @
                 map (\<lambda>r. (r, sse_frame e (heap_get (heap w) a))) subscribers))"
proof (intro conjI impI)
  assume k: "(t = JStr ''initial_view'' \<or> t = JStr ''view_change'') \<and> truthy v"
  let ?copy = "JObj (AList.update ''view'' (rewriteImageUrls e v) (own_props (heap_get (heap w) a)))"
  from k send_transformed [OF assms(1) assms(2) _ assms(3), of e]
  obtain w' where "sendToChannel e ch a w = Inr w'"
    and "writes_of (trace w') = writes_of (trace w) @ map (\<lambda>r. (r, sse_frame e ?copy)) subscribers"
    by blast
  moreover from k copy_fields [OF assms(2), of "rewriteImageUrls e v"]
  have "get_prop ?copy ''view'' = Inr (rewriteImageUrls e v) \<and>
        (\<forall>k. k \<noteq> ''view'' \<longrightarrow> get_prop ?copy k = get_prop (heap_get (heap w) a) k)"
    by blast
  ultimately show "\<exists>w' copy. sendToChannel e ch a w = Inr w' \<and>
               writes_of (trace w') =
                 writes_of (trace w) @ map (\<lambda>r. (r, sse_frame e copy)) subscribers \<and>
               get_prop copy ''view'' = Inr (rewriteImageUrls e v) \<and>
               (\<forall>k. k \<noteq> ''view'' \<longrightarrow> get_prop copy k = get_prop (heap_get (heap w) a) k)"
    by blast
next
  assume k: "t \<noteq> JStr ''initial_view'' \<and> t \<noteq> JStr ''view_change''"
  have "processMessage e a (logChannel Publishing_message_to_channel ch (heap_get (heap w) a) w)
          = Inr (a, logChannel Publishing_message_to_channel ch (heap_get (heap w) a) w)"
    using k by (intro processMessage_verbatim [where t = t]) (simp_all add: logged_heap assms(2))
  from send_verbatim [OF assms(1) this]
  show "\<exists>w'. sendToChannel e ch a w = Inr w' \<and>
               writes_of (trace w') =
                 writes_of (trace w) @
                 map (\<lambda>r. (r, sse_frame e (heap_get (heap w) a))) subscribers"
    by blast
qed

theorem broadcast_transforms_view_messages_only_witness:
  "map_of (channels world_s1_s2) ''X'' = Some [1, 2] \<and>
   get_prop (heap_get (heap world_s1_s2) 1) ''type'' = Inr (JStr ''initial_view'') \<and>
   get_prop (heap_get (heap world_s1_s2) 1) ''view'' = Inr (JStr ''a.png'') \<and>
   truthy (JStr ''a.png'') \<and>
   (\<exists>w' copy. sendToChannel env_ok ''X'' 1 world_s1_s2 = Inr w' \<and>
      writes_of (trace w') =
        writes_of (trace world_s1_s2) @ map (\<lambda>r. (r, sse_frame env_ok copy)) [1, 2] \<and>
      get_prop copy ''view'' = Inr (JArr [JStr ''proxy'', JStr ''a.png'']))"
proof -
  have h1: "map_of (channels world_s1_s2) ''X'' = Some [1, 2]"
    by (simp add: world_s1_s2_eq)
  have h2: "get_prop (heap_get (heap world_s1_s2) 1) ''type'' = Inr (JStr ''initial_view'')"
    by (simp add: world_s1_s2_eq world_s1_eq heap_get_def msg_view_def)
  have h3: "get_prop (heap_get (heap world_s1_s2) 1) ''view'' = Inr (JStr ''a.png'')"
    by (simp add: world_s1_s2_eq world_s1_eq heap_get_def msg_view_def)
  have h4: "truthy (JStr ''a.png'')"
    by simp
  have r: "rewriteImageUrls env_ok (JStr ''a.png'') = JArr [JStr ''proxy'', JStr ''a.png'']"
    by (simp add: env_ok_def)
  from broadcast_transforms_view_messages_only [OF h1 h2 h3, of env_ok] h4
  have "\<exists>w' copy. sendToChannel env_ok ''X'' 1 world_s1_s2 = Inr w' \<and>
      writes_of (trace w') =
        writes_of (trace world_s1_s2) @ map (\<lambda>r. (r, sse_frame env_ok copy)) [1, 2] \<and>
      get_prop copy ''view'' = Inr (JArr [JStr ''proxy'', JStr ''a.png''])"
    unfolding r by blast
  with h1 h2 h3 h4 show ?thesis
    by blast
qed

text \<open>
  C6, as amended. \<^verbatim>\<open>subscribeClient\<close> and \<^verbatim>\<open>unsubscribeClient\<close> return on every
  input, and a broadcast returns for every message that is neither \<^verbatim>\<open>null\<close> nor
  \<^verbatim>\<open>undefined\<close>, whichever writes fail.
\<close>

theorem operations_return_for_object_messages:
  "(\<exists>w'. subscribeClient e ch r cid ipa w = Inr w') \<and>
   (\<exists>w'. unsubscribeClient ch' r' w = Inr w') \<and>
   (heap_get (heap w) a \<noteq> JNull \<and> heap_get (heap w) a \<noteq> JUndefined \<longrightarrow>
      (\<exists>w'. broadcastToChannel e ch'' a w = Inr w') \<and> (\<exists>w'. sendToChannel e ch'' a w = Inr w'))"
proof -
  have "\<exists>w'. sendToChannel e ch'' a w = Inr w'"
    if "heap_get (heap w) a \<noteq> JNull" and "heap_get (heap w) a \<noteq> JUndefined"
    unfolding sendToChannel_def using that
    by (intro broadcastToChannel_returns) (simp_all add: logged_heap)
  then show ?thesis
    using subscribeClient_returns unsubscribeClient_returns broadcastToChannel_returns by blast
qed

theorem operations_return_for_object_messages_witness:
  "heap_get (heap world_s1) 0 \<noteq> JNull \<and> heap_get (heap world_s1) 0 \<noteq> JUndefined \<and>
   (\<exists>w'. subscribeClient env_s1_fails ''X'' 2 ''10.0.0.2-1700000000001'' ''10.0.0.2'' world_s1 = Inr w') \<and>
   (\<exists>w'. unsubscribeClient ''X'' 1 world_s1 = Inr w') \<and>
   (\<exists>w'. broadcastToChannel env_s1_fails ''X'' 0 world_s1 = Inr w') \<and>
   (\<exists>w'. sendToChannel env_s1_fails ''X'' 0 world_s1 = Inr w')"
proof -
  have h: "heap_get (heap world_s1) 0 \<noteq> JNull \<and> heap_get (heap world_s1) 0 \<noteq> JUndefined"
    by (simp add: world_s1_eq heap_get_def msg_ping_def)
  with operations_return_for_object_messages
         [where e = env_s1_fails and ch = "''X''" and r = 2 and cid = "''10.0.0.2-1700000000001''"
            and ipa = "''10.0.0.2''" and w = world_s1 and ch' = "''X''" and r' = 1
            and ch'' = "''X''" and a = 0]
  show ?thesis
    by blast
qed

text \<open>
  As stated, for every message, the claim fails: a broadcast of \<^verbatim>\<open>null\<close> to a channel
  that has an entry raises a TypeError at \<^verbatim>\<open>message.type\<close>, outside the \<^verbatim>\<open>try\<close>.
\<close>

theorem broadcast_of_null_raises:
  "heap_get (heap world_s1) 2 = JNull \<and>
   broadcastToChannel env_ok ''X'' 2 world_s1 = Inl TypeError \<and>
   sendToChannel env_ok ''X'' 2 world_s1 = Inl TypeError"
  by (simp add: example_defs model_defs)

text \<open>
  C7. After the only subscriber of channel X has unsubscribed, X is absent from the channel
  index and from the result of \<^verbatim>\<open>getChannelStats\<close>; a later subscription to X creates
  the entry again and \<^verbatim>\<open>getChannelStats\<close> reports X with count 1. In the first run below
  the new subscriber's client id ends in \<^verbatim>\<open>8640000000000001\<close>: the entry of X is there
  again, with the new subscriber alone, and \<^verbatim>\<open>getChannelStats\<close> raises a RangeError. In
  the second run the channel is named \<^verbatim>\<open>__proto__\<close>: the entry is there again and the
  object that \<^verbatim>\<open>getChannelStats\<close> returns has no property for it.
\<close>

theorem resubscribed_channel_is_not_reported:
  "channels world_s1 = [(''X'', [1])] \<and>
   channels world_s1_gone = [] \<and>
   getChannelStats world_s1_gone = Inr [] \<and>
   channels world_s3_bad_id = [(''X'', [3])] \<and>
   getChannelStats world_s3_bad_id = Inl RangeError \<and>
   channels world_proto = [(''__proto__'', [1])] \<and>
   channels world_proto_gone = [] \<and>
   channels world_proto_again = [(''__proto__'', [2])] \<and>
   map fst (clientMap world_proto_again) = [2] \<and>
   getChannelStats world_proto_again = Inr []"
  by (simp add: example_defs model_defs parse_defs getChannelStats_def stats_client_of_def
      object_defs)

text \<open>
  C8. The \<^verbatim>\<open>connectedAt\<close> of a view is read from the last \<^verbatim>\<open>-\<close> segment of the
  client id, and is null without an error when the segment does not parse as a positive
  number. The segment \<^verbatim>\<open>8640000000000001\<close> parses as a positive number that is not the
  time value of a date: with one such subscriber \<^verbatim>\<open>getConnectedClients\<close> and
  \<^verbatim>\<open>getChannelStats\<close> raise a RangeError.
\<close>

theorem out_of_range_timestamp_raises:
  "parse_timestamp ''10.0.0.1-8640000000000001'' = Some 8640000000000001 \<and>
   map fst (clientMap world_bad_id) = [1] \<and>
   getConnectedClients None world_bad_id = Inl RangeError \<and>
   getConnectedClients (Some ''X'') world_bad_id = Inl RangeError \<and>
   getChannelStats world_bad_id = Inl RangeError"
  by (simp add: example_defs model_defs parse_defs getChannelStats_def getConnectedClients_def
      extractClientInfo_def stats_client_of_def)

text \<open>
  C9. A broadcast that returns leaves every object of the store as it was, the caller's
  message among them, and a processed message that is not the caller's object is at an
  address where no object was before.
\<close>

theorem broadcast_leaves_message_object_unchanged:
  assumes "sendToChannel e ch a w = Inr w'" and "a < length (heap w)"
  shows "heap_get (heap w') a = heap_get (heap w) a \<and>
         take (length (heap w)) (heap w') = heap w \<and>
         (\<forall>p w1. processMessage e a w = Inr (p, w1) \<and> p \<noteq> a \<longrightarrow>
                   length (heap w) \<le> p \<and> heap_get (heap w) p = JUndefined)"
proof -
  let ?w0 = "logChannel Publishing_message_to_channel ch (heap_get (heap w) a) w"
  have pre: "take (length (heap w)) (heap w') = heap w"
  proof (cases "map_of (channels w) ch")
    case None
    with assms(1) show ?thesis
      by (auto simp add: sendToChannel_unfold logged_heap)
  next
    case (Some subscribers)
    with assms(1) obtain p w1 where p: "processMessage e a ?w0 = Inr (p, w1)"
      and w': "w' = fold (deliver e ch p) subscribers w1"
      by (auto simp add: sendToChannel_unfold split: sum.splits)
    from processMessage_heap [OF p] have "take (length (heap w)) (heap w1) = heap w"
      by (simp add: logged_heap)
    then show ?thesis
      by (simp add: w' fold_deliver_heap)
  qed
  have "heap_get (heap w') a = heap_get (heap w) a"
  proof -
    have "length (heap w) \<le> length (heap w')"
      by (metis pre length_take min.cobounded1 min.commute)
    moreover have "heap w' ! a = heap w ! a"
      by (metis pre assms(2) nth_take)
    ultimately show ?thesis
      using assms(2) by (simp add: heap_get_def)
  qed
  moreover have "\<forall>p w1. processMessage e a w = Inr (p, w1) \<and> p \<noteq> a \<longrightarrow>
                   length (heap w) \<le> p \<and> heap_get (heap w) p = JUndefined"
    using processMessage_heap by (fastforce simp add: heap_get_def)
  ultimately show ?thesis
    using pre by blast
qed

theorem broadcast_leaves_message_object_unchanged_witness:
  "sendToChannel env_ok ''X'' 1 world_s1 = Inr world_after_view \<and>
   1 < length (heap world_s1) \<and>
   heap_get (heap world_after_view) 1 = msg_view \<and>
   writes_of (trace world_after_view) = [(1, ''data: rewritten'' @ [CHR 0x0A, CHR 0x0A])]"
proof -
  have h1: "sendToChannel env_ok ''X'' 1 world_s1 = Inr world_after_view"
    by (simp add: world_after_view_def returned_def world_s1_eq env_ok_def msg_view_def
        model_defs)
  have h2: "1 < length (heap world_s1)"
    by (simp add: world_s1_eq)
  have "heap_get (heap world_s1) 1 = msg_view"
    by (simp add: world_s1_eq heap_get_def)
  with broadcast_leaves_message_object_unchanged [OF h1 h2]
  have "heap_get (heap world_after_view) 1 = msg_view"
    by simp
  moreover have "writes_of (trace world_after_view) = [(1, ''data: rewritten'' @ [CHR 0x0A, CHR 0x0A])]"
    by (simp add: world_after_view_def returned_def world_s1_eq env_ok_def msg_view_def
        example_stringify_def writes_of_def model_defs)
  ultimately show ?thesis
    using h1 h2 by blast
qed

text \<open>
  C10. A message of type \<^verbatim>\<open>initial_view\<close> or \<^verbatim>\<open>view_change\<close> whose \<^verbatim>\<open>view\<close> is
  missing or falsy is written as it is to every subscriber of the channel, once and in
  order; \<^verbatim>\<open>rewriteImageUrls\<close> is not called and no object is created.
\<close>

theorem view_message_without_payload_is_verbatim:
  assumes "map_of (channels w) ch = Some subscribers"
    and "get_prop (heap_get (heap w) a) ''type'' = Inr t"
    and "t = JStr ''initial_view'' \<or> t = JStr ''view_change''"
    and "get_prop (heap_get (heap w) a) ''view'' = Inr v"
    and "\<not> truthy v"
  shows "\<exists>w'. sendToChannel e ch a w = Inr w' \<and>
           writes_of (trace w') =
             writes_of (trace w) @ map (\<lambda>r. (r, sse_frame e (heap_get (heap w) a))) subscribers \<and>
           rewrites_of (trace w') = rewrites_of (trace w) \<and> heap w' = heap w"
proof -
  have "processMessage e a (logChannel Publishing_message_to_channel ch (heap_get (heap w) a) w)
          = Inr (a, logChannel Publishing_message_to_channel ch (heap_get (heap w) a) w)"
    by (rule processMessage_no_view [where t = t and v = v])
       (simp_all add: logged_heap assms)
  from send_verbatim [OF assms(1) this] show ?thesis .
qed

theorem view_message_without_payload_is_verbatim_witness:
  "map_of (channels world_s1_s2) ''X'' = Some [1, 2] \<and>
   get_prop (heap_get (heap world_s1_s2) 3) ''type'' = Inr (JStr ''view_change'') \<and>
   get_prop (heap_get (heap world_s1_s2) 3) ''view'' = Inr JUndefined \<and>
   \<not> truthy JUndefined \<and>
   (\<exists>w'. sendToChannel env_ok ''X'' 3 world_s1_s2 = Inr w' \<and>
      writes_of (trace w') =
        writes_of (trace world_s1_s2) @
        map (\<lambda>r. (r, sse_frame env_ok (heap_get (heap world_s1_s2) 3))) [1, 2] \<and>
      rewrites_of (trace w') = rewrites_of (trace world_s1_s2) \<and>
      heap w' = heap world_s1_s2)"
proof -
  have h1: "map_of (channels world_s1_s2) ''X'' = Some [1, 2]"
    by (simp add: world_s1_s2_eq)
  have h2: "get_prop (heap_get (heap world_s1_s2) 3) ''type'' = Inr (JStr ''view_change'')"
    by (simp add: world_s1_s2_eq world_s1_eq heap_get_def msg_view_no_payload_def)
  have h3: "JStr ''view_change'' = JStr ''initial_view'' \<or> JStr ''view_change'' = JStr ''view_change''"
    by simp
  have h4: "get_prop (heap_get (heap world_s1_s2) 3) ''view'' = Inr JUndefined"
    by (simp add: world_s1_s2_eq world_s1_eq heap_get_def msg_view_no_payload_def)
  have h5: "\<not> truthy JUndefined"
    by simp
  from view_message_without_payload_is_verbatim [OF h1 h2 h3 h4 h5, of env_ok] h1 h2 h4 h5
  show ?thesis
    by blast
qed

end
